theory Spec2Isabelle
  imports Main "HOL-Library.Word" "HOL-Library.Sublist"
begin

section \<open>Command-line flags and the flag variables\<close>

text \<open>
  \<^verbatim>\<open>cmd/main.go\<close>, lines 24-28 and 130-132. The three package-level variables
  \<^verbatim>\<open>Debug\<close>, \<^verbatim>\<open>ServerHost\<close> and \<^verbatim>\<open>ServerPort\<close> are bound to the persistent flags of the
  \<^verbatim>\<open>run\<close> command. A flag that is absent from the command line leaves its variable at
  the default given in the binding (\<^verbatim>\<open>false\<close>, \<^verbatim>\<open>"localhost"\<close>, \<^verbatim>\<open>10222\<close>); a flag that
  is present stores its value. \<open>None\<close> is an absent flag.
\<close>

record flags =
  flag_debug :: "bool option"
  flag_server_host :: "string option"
  flag_server_port :: "64 word option"

record flag_vars =
  var_Debug :: bool
  var_ServerHost :: string
  var_ServerPort :: "64 word"

definition bind_flags :: "flags \<Rightarrow> flag_vars" where
  "bind_flags f =
     \<lparr>var_Debug = (case flag_debug f of None \<Rightarrow> False | Some b \<Rightarrow> b),
      var_ServerHost = (case flag_server_host f of None \<Rightarrow> ''localhost'' | Some h \<Rightarrow> h),
      var_ServerPort = (case flag_server_port f of None \<Rightarrow> 10222 | Some p \<Rightarrow> p)\<rparr>"

section \<open>The configuration object\<close>

text \<open>
  Modelled from the spec: the type \<^verbatim>\<open>config.Config\<close> (package \<^verbatim>\<open>config\<close> of the repository;
  only its use in \<^verbatim>\<open>Run\<close> is at hand). The spec's data model gives it the fields
  \<^verbatim>\<open>version\<close>, \<^verbatim>\<open>debug\<close>, \<^verbatim>\<open>serverHost\<close> and \<^verbatim>\<open>serverPort\<close> (an unsigned integer), and
  \<^verbatim>\<open>Run\<close> writes them as \<^verbatim>\<open>config.Version\<close> and \<^verbatim>\<open>config.OtlpInf.Debug\<close>,
  \<^verbatim>\<open>.ServerHost\<close>, \<^verbatim>\<open>.ServerPort\<close>. The fields of \<^verbatim>\<open>OtlpInf\<close> are decoded from the
  configuration keys \<^verbatim>\<open>otlp_inf.debug\<close>, \<^verbatim>\<open>otlp_inf.server_host\<close> and
  \<^verbatim>\<open>otlp_inf.server_port\<close>, the keys that \<^verbatim>\<open>initConfig\<close> registers.
\<close>

record OtlpInf =
  Debug :: bool
  ServerHost :: string
  ServerPort :: "64 word"

record Config =
  Version :: string
  OtlpInf :: OtlpInf

section \<open>Settings, environment and \<^verbatim>\<open>initConfig\<close>\<close>

text \<open>
  A settings map holds dynamically typed values under dotted keys: the defaults are a
  Go \<^verbatim>\<open>bool\<close>, a \<^verbatim>\<open>string\<close> and an \<^verbatim>\<open>int\<close>; a value read from the process environment
  is always a string. The map is an association list read with \<^const>\<open>map_of\<close>, so
  that an earlier entry hides a later one with the same key.
\<close>

datatype cfg_value = VBool bool | VInt int | VString string

type_synonym settings = "(string \<times> cfg_value) list"

type_synonym environ = "(string \<times> string) list"

text \<open>
  The name of the environment variable that belongs to a key: \<^verbatim>\<open>AutomaticEnv\<close> looks
  the key up in upper case, after the replacer of line 108 has turned every dot into an
  underscore. The keys are ASCII, so upper case is the ASCII one.
\<close>

definition to_upper :: "char \<Rightarrow> char" where
  "to_upper c =
     (let n = (of_char c :: nat) in if 97 \<le> n \<and> n \<le> 122 then char_of (n - 32) else c)"

definition env_key :: "string \<Rightarrow> string" where
  "env_key k = map (\<lambda>c. if c = CHR ''.'' then CHR ''_'' else c) (map to_upper k)"

text \<open>
  Reading one variable: a variable that is unset, or set to the empty string, does not
  count (the instance never allows empty environment values).
\<close>

definition getEnv :: "environ \<Rightarrow> string \<Rightarrow> string option" where
  "getEnv e k =
     (case map_of e (env_key k) of
        None \<Rightarrow> None
      | Some v \<Rightarrow> if v = [] then None else Some v)"

text \<open>
  The parents of a dotted key are its parts before a dot: \<^verbatim>\<open>otlp_inf\<close> is the one parent
  of \<^verbatim>\<open>otlp_inf.debug\<close>. With \<^verbatim>\<open>AutomaticEnv\<close> a key whose own variable is not set is
  shadowed when the variable of one of its parents is set.
\<close>

definition parent_keys :: "string \<Rightarrow> string list" where
  "parent_keys k = map (\<lambda>i. take i k) (filter (\<lambda>i. k ! i = CHR ''.'') [0..<length k])"

definition isPathShadowedInAutoEnv :: "environ \<Rightarrow> string \<Rightarrow> bool" where
  "isPathShadowedInAutoEnv e k = list_ex (\<lambda>p. getEnv e p \<noteq> None) (parent_keys k)"

text \<open>
  The value of a key in the instance \<^verbatim>\<open>v\<close> built by \<^verbatim>\<open>initConfig\<close>: the environment
  first; then no value at all for a shadowed key; then the default. \<open>AllSettings\<close>
  collects that value for every key the instance knows, which are the keys that have a
  default (the comment on line 110 says as much), and leaves out a key without a value.
\<close>

definition Get :: "environ \<Rightarrow> settings \<Rightarrow> string \<Rightarrow> cfg_value option" where
  "Get e d k =
     (case getEnv e k of
        Some v \<Rightarrow> Some (VString v)
      | None \<Rightarrow> if isPathShadowedInAutoEnv e k then None else map_of d k)"

definition AllSettings :: "environ \<Rightarrow> settings \<Rightarrow> settings" where
  "AllSettings e d =
     concat (map (\<lambda>k. case Get e d k of None \<Rightarrow> [] | Some v \<Rightarrow> [(k, v)]) (map fst d))"

definition MergeConfigMap :: "settings \<Rightarrow> settings \<Rightarrow> settings" where
  "MergeConfigMap cfg g = cfg @ g"

definition defaults :: settings where
  "defaults =
     [(''otlp_inf.debug'', VBool False),
      (''otlp_inf.server_host'', VString ''localhost''),
      (''otlp_inf.server_port'', VInt 10222)]"

text \<open>
  \<^verbatim>\<open>initConfig\<close> (lines 105-115): the settings of the local instance are merged into the
  process-wide one, whose configuration map is \<open>g\<close> before the call.
\<close>

definition initConfig :: "environ \<Rightarrow> settings \<Rightarrow> settings" where
  "initConfig e g = MergeConfigMap (AllSettings e defaults) g"

section \<open>Decoding the settings into the configuration object\<close>

text \<open>
  \<^verbatim>\<open>viper.Unmarshal\<close> decodes with weakly typed input. A value that already has the
  field's type is stored as it is, and a non-negative \<^verbatim>\<open>int\<close> is stored in an unsigned
  field as the same number. Every other conversion (a string into a \<^verbatim>\<open>bool\<close> or into an
  unsigned integer, and so on) is done by the decoding library, which is not part of the
  repository: these conversions are parameters of the model, \<open>None\<close> being a value the
  library refuses.
\<close>

record decoders =
  weak_bool :: "cfg_value \<Rightarrow> bool option"
  weak_string :: "cfg_value \<Rightarrow> string option"
  weak_uint :: "cfg_value \<Rightarrow> 64 word option"

definition decode_bool :: "decoders \<Rightarrow> cfg_value \<Rightarrow> bool option" where
  "decode_bool dec v = (case v of VBool b \<Rightarrow> Some b | _ \<Rightarrow> weak_bool dec v)"

definition decode_string :: "decoders \<Rightarrow> cfg_value \<Rightarrow> string option" where
  "decode_string dec v = (case v of VString s \<Rightarrow> Some s | _ \<Rightarrow> weak_string dec v)"

definition decode_uint :: "decoders \<Rightarrow> cfg_value \<Rightarrow> 64 word option" where
  "decode_uint dec v =
     (case v of
        VInt i \<Rightarrow> if 0 \<le> i \<and> i < 2 ^ 64 then Some (word_of_int i) else weak_uint dec v
      | _ \<Rightarrow> weak_uint dec v)"

text \<open>
  One field: a key that the settings do not hold leaves the field as it is; a key that
  they hold overwrites it with the decoded value, or fails.
\<close>

definition decode_field ::
  "(cfg_value \<Rightarrow> 'a option) \<Rightarrow> settings \<Rightarrow> string \<Rightarrow> 'a \<Rightarrow> 'a option" where
  "decode_field dcd st k cur = (case map_of st k of None \<Rightarrow> Some cur | Some v \<Rightarrow> dcd v)"

datatype error = ConfigDecodeError

definition Unmarshal :: "decoders \<Rightarrow> settings \<Rightarrow> Config \<Rightarrow> error + Config" where
  "Unmarshal dec st c =
     (case decode_field (decode_string dec) st ''version'' (Version c) of
        None \<Rightarrow> Inl ConfigDecodeError
      | Some ver \<Rightarrow>
     (case decode_field (decode_bool dec) st ''otlp_inf.debug'' (Debug (OtlpInf c)) of
        None \<Rightarrow> Inl ConfigDecodeError
      | Some d \<Rightarrow>
     (case decode_field (decode_string dec) st ''otlp_inf.server_host'' (ServerHost (OtlpInf c)) of
        None \<Rightarrow> Inl ConfigDecodeError
      | Some h \<Rightarrow>
     (case decode_field (decode_uint dec) st ''otlp_inf.server_port'' (ServerPort (OtlpInf c)) of
        None \<Rightarrow> Inl ConfigDecodeError
      | Some p \<Rightarrow>
          Inr \<lparr>Version = ver, OtlpInf = \<lparr>Debug = d, ServerHost = h, ServerPort = p\<rparr>\<rparr>))))"

text \<open>
  The resolution step of \<^verbatim>\<open>Run\<close> (lines 32-45): \<^verbatim>\<open>initConfig\<close> on the fresh process-wide
  instance, the configuration object filled from the embedded version and the three flag
  variables, and then \<^verbatim>\<open>viper.Unmarshal\<close> into that same object.
\<close>

definition Run_config :: "decoders \<Rightarrow> string \<Rightarrow> environ \<Rightarrow> flag_vars \<Rightarrow> error + Config" where
  "Run_config dec version e fv =
     (let g = initConfig e [];
          config = \<lparr>Version = version,
                    OtlpInf = \<lparr>Debug = var_Debug fv,
                               ServerHost = var_ServerHost fv,
                               ServerPort = var_ServerPort fv\<rparr>\<rparr>
      in Unmarshal dec g config)"

text \<open>
  An instance of the conversions for running the model on concrete inputs: it converts
  the string \<^verbatim>\<open>"true"\<close> to \<open>True\<close>, the string \<^verbatim>\<open>"false"\<close> to \<open>False\<close> and a string of
  decimal digits without a leading zero to its value when that is below \<open>2 ^ 64\<close>; it
  refuses everything else. The theorems below hold for all conversions; this instance
  only serves the closed examples.
\<close>

definition digit_of :: "char \<Rightarrow> int option" where
  "digit_of c =
     (let n = (of_char c :: int) in if 48 \<le> n \<and> n \<le> 57 then Some (n - 48) else None)"

fun decimal :: "int \<Rightarrow> string \<Rightarrow> int option" where
  "decimal acc [] = Some acc"
| "decimal acc (c # cs) =
     (case digit_of c of None \<Rightarrow> None | Some d \<Rightarrow> decimal (10 * acc + d) cs)"

definition example_uint :: "cfg_value \<Rightarrow> 64 word option" where
  "example_uint v =
     (case v of
        VString s \<Rightarrow>
          (if s = [] \<or> (hd s = CHR ''0'' \<and> s \<noteq> ''0'') then None
           else case decimal 0 s of
                  None \<Rightarrow> None
                | Some n \<Rightarrow> if n < 2 ^ 64 then Some (word_of_int n) else None)
      | _ \<Rightarrow> None)"

definition example_bool :: "cfg_value \<Rightarrow> bool option" where
  "example_bool v =
     (if v = VString ''true'' then Some True
      else if v = VString ''false'' then Some False
      else None)"

definition example_decoders :: decoders where
  "example_decoders =
     \<lparr>weak_bool = example_bool, weak_string = (\<lambda>v. None), weak_uint = example_uint\<rparr>"

section \<open>The logger\<close>

text \<open>
  Lines 48-62. The levels and their order are those of the logging library
  (\<^verbatim>\<open>Debug\<close> is \<open>-1\<close>, \<^verbatim>\<open>Info\<close> is \<open>0\<close>, up to \<^verbatim>\<open>Fatal\<close>, which is \<open>5\<close>); a record is
  emitted when its level is at least the logger's level. The level is chosen by the
  flag variable \<^verbatim>\<open>Debug\<close>.
\<close>

datatype Level =
  DebugLevel | InfoLevel | WarnLevel | ErrorLevel | DPanicLevel | PanicLevel | FatalLevel

fun level_num :: "Level \<Rightarrow> int" where
  "level_num DebugLevel = -1"
| "level_num InfoLevel = 0"
| "level_num WarnLevel = 1"
| "level_num ErrorLevel = 2"
| "level_num DPanicLevel = 3"
| "level_num PanicLevel = 4"
| "level_num FatalLevel = 5"

definition Enabled :: "Level \<Rightarrow> Level \<Rightarrow> bool" where
  "Enabled lvl l = (level_num lvl \<le> level_num l)"

definition atomicLevel :: "flag_vars \<Rightarrow> Level" where
  "atomicLevel fv = (if var_Debug fv then DebugLevel else InfoLevel)"

section \<open>The run as a transition system\<close>

text \<open>
  After the resolution step, \<^verbatim>\<open>Run\<close> builds the logger, constructs the service, starts a
  second routine (the watcher, lines 78-93) and calls \<^verbatim>\<open>Start\<close>; from then on the main
  routine, the watcher, the operating system (which delivers termination signals) and the
  service (an opaque collaborator) take turns. The model is an interleaving of atomic
  steps, one per statement of the source. A run is the effect of a schedule, a list of
  actions; an action whose routine cannot move (it is blocked, has ended, or the process
  has exited) leaves the state as it is.

  What does not come from \<^verbatim>\<open>cmd/main.go\<close> is an input of the run: the conversions of the
  decoding library, the embedded version, the environment, the flags, and whether the
  service's constructor and its \<^verbatim>\<open>Start\<close> fail. The calls into the service return: the
  constructor and \<^verbatim>\<open>Stop\<close> are one step each, and \<^verbatim>\<open>Start\<close> is two steps, its call and its
  return, so that the watcher and the signals can act while \<^verbatim>\<open>Start\<close> is in progress (a
  call that takes long is a routine that the schedule leaves waiting).
\<close>

record input =
  in_dec :: decoders
  in_version :: string
  in_env :: environ
  in_flags :: flags
  new_fails :: bool
  start_fails :: bool

datatype routine = MainRoutine | WatcherRoutine | ServiceRoutine

text \<open>
  The observable events of a run, in the order in which they happen. \<open>EvStop live\<close> is a
  call of \<^verbatim>\<open>a.Stop(rootCtx)\<close>, where \<open>live\<close> tells whether the root context was not yet
  cancelled at the call; \<open>EvCancel r\<close> is a call of \<^verbatim>\<open>cancelFunc\<close> made by routine \<open>r\<close>;
  \<open>EvSignal\<close> is a termination signal reaching the process.
\<close>

datatype event =
    EvStderr error
  | EvLog Level string
  | EvSync
  | EvNew
  | EvStartCall bool
  | EvStartReturn bool
  | EvStop bool
  | EvCancel routine
  | EvSignal
  | EvDoneWrite
  | EvDoneRead
  | EvExit nat
  | EvKilled

datatype proc = Alive | Exited nat | Killed

text \<open>
  The program counters. Main routine: \<open>M_Config\<close> is lines 32-45, \<open>M_Logger\<close> lines 48-65
  (the logger and the deferred \<^verbatim>\<open>Sync\<close>), \<open>M_New\<close> line 68, \<open>M_NewErr\<close> line 70,
  \<open>M_NewExit\<close> line 71, \<open>M_Go\<close> lines 75-78 (the channel, the root context and the
  \<^verbatim>\<open>go\<close> statement), \<open>M_Start\<close> the call on line 96, \<open>M_Started\<close> its return,
  \<open>M_StartErr\<close> line 98, \<open>M_StartExit\<close> line 99, \<open>M_Wait\<close> line 102, \<open>M_Defer\<close> the
  deferred function at the end of \<^verbatim>\<open>Run\<close>, \<open>M_Return\<close> the return through
  \<^verbatim>\<open>rootCmd.Execute\<close> and \<^verbatim>\<open>main\<close>. Watcher: \<open>W_None\<close> before the \<^verbatim>\<open>go\<close> statement,
  \<open>W_Notify\<close> lines 79-80, \<open>W_Select\<close> line 82, \<open>W_Warn1\<close> line 84, \<open>W_Stop\<close> line 85,
  \<open>W_Cancel\<close> line 86, \<open>W_Warn2\<close> line 88, \<open>W_Send\<close> line 89, \<open>W_Returned\<close> line 90.
\<close>

datatype main_pc =
    M_Config | M_Logger | M_New | M_NewErr | M_NewExit | M_Go
  | M_Start | M_Started | M_StartErr | M_StartExit | M_Wait | M_Defer | M_Return

datatype watcher_pc =
    W_None | W_Notify | W_Select | W_Warn1 | W_Stop | W_Cancel | W_Warn2 | W_Send | W_Returned

text \<open>
  The state: \<open>deferred\<close> tells whether the deferred \<^verbatim>\<open>Sync\<close> is registered, \<open>cancelled\<close>
  whether the root context is cancelled, \<open>sigs\<close> and \<open>done_chan\<close> how many values the two
  channels hold, \<open>svc_cancel\<close> whether the service has been handed \<^verbatim>\<open>cancelFunc\<close>.
\<close>

record state =
  proc :: proc
  mpc :: main_pc
  wpc :: watcher_pc
  config :: "Config option"
  deferred :: bool
  cancelled :: bool
  sigs :: nat
  done_chan :: nat
  svc_cancel :: bool
  trace :: "event list"

definition init :: state where
  "init =
     \<lparr>proc = Alive, mpc = M_Config, wpc = W_None, config = None, deferred = False,
      cancelled = False, sigs = 0, done_chan = 0, svc_cancel = False, trace = []\<rparr>"

text \<open>Both channels are made with capacity 1 (lines 75 and 79).\<close>

definition done_cap :: nat where
  "done_cap = 1"

definition sigs_cap :: nat where
  "sigs_cap = 1"

definition emit :: "event list \<Rightarrow> state \<Rightarrow> state" where
  "emit evs s = s\<lparr>trace := trace s @ evs\<rparr>"

text \<open>A record written through the logger appears when the logger's level admits it.\<close>

definition logger_write :: "input \<Rightarrow> Level \<Rightarrow> string \<Rightarrow> state \<Rightarrow> state" where
  "logger_write inp l msg s =
     (if Enabled (atomicLevel (bind_flags (in_flags inp))) l then emit [EvLog l msg] s else s)"

text \<open>\<^verbatim>\<open>os.Exit\<close> ends the process at once: deferred functions do not run.\<close>

definition os_Exit :: "nat \<Rightarrow> state \<Rightarrow> state" where
  "os_Exit c s = (emit [EvExit c] s)\<lparr>proc := Exited c\<rparr>"

definition main_step :: "input \<Rightarrow> state \<Rightarrow> state" where
  "main_step inp s =
     (case mpc s of
        M_Config \<Rightarrow>
          (case Run_config (in_dec inp) (in_version inp) (in_env inp) (bind_flags (in_flags inp)) of
             Inl err \<Rightarrow> os_Exit 1 (emit [EvStderr err] s)
           | Inr c \<Rightarrow> s\<lparr>config := Some c, mpc := M_Logger\<rparr>)
      | M_Logger \<Rightarrow> s\<lparr>deferred := True, mpc := M_New\<rparr>
      | M_New \<Rightarrow> (emit [EvNew] s)\<lparr>mpc := (if new_fails inp then M_NewErr else M_Go)\<rparr>
      | M_NewErr \<Rightarrow> (logger_write inp ErrorLevel ''otlpinf start up error'' s)\<lparr>mpc := M_NewExit\<rparr>
      | M_NewExit \<Rightarrow> os_Exit 1 s
      | M_Go \<Rightarrow> s\<lparr>wpc := W_Notify, mpc := M_Start\<rparr>
      | M_Start \<Rightarrow>
          (emit [EvStartCall (\<not> cancelled s)] s)\<lparr>svc_cancel := True, mpc := M_Started\<rparr>
      | M_Started \<Rightarrow>
          (emit [EvStartReturn (\<not> start_fails inp)] s)
            \<lparr>mpc := (if start_fails inp then M_StartErr else M_Wait)\<rparr>
      | M_StartErr \<Rightarrow> (logger_write inp ErrorLevel ''otlpinf startup error'' s)\<lparr>mpc := M_StartExit\<rparr>
      | M_StartExit \<Rightarrow> os_Exit 1 s
      | M_Wait \<Rightarrow>
          (if 0 < done_chan s then (emit [EvDoneRead] s)\<lparr>done_chan := done_chan s - 1, mpc := M_Defer\<rparr> else s)
      | M_Defer \<Rightarrow> (if deferred s then emit [EvSync] s else s)\<lparr>mpc := M_Return\<rparr>
      | M_Return \<Rightarrow> (emit [EvExit 0] s)\<lparr>proc := Exited 0\<rparr>)"

text \<open>
  The watcher. At the \<^verbatim>\<open>select\<close> a case is ready when the channel \<^verbatim>\<open>sigs\<close> holds a signal,
  or when the root context is cancelled; when both are ready the choice is free, and the
  argument \<open>pick_sig\<close> makes it.
\<close>

definition watcher_step :: "input \<Rightarrow> bool \<Rightarrow> state \<Rightarrow> state" where
  "watcher_step inp pick_sig s =
     (case wpc s of
        W_None \<Rightarrow> s
      | W_Notify \<Rightarrow> s\<lparr>wpc := W_Select\<rparr>
      | W_Select \<Rightarrow>
          (if 0 < sigs s \<and> (pick_sig \<or> \<not> cancelled s) then s\<lparr>sigs := sigs s - 1, wpc := W_Warn1\<rparr>
           else if cancelled s then s\<lparr>wpc := W_Warn2\<rparr>
           else s)
      | W_Warn1 \<Rightarrow>
          (logger_write inp WarnLevel ''stop signal received, stopping otlpinf'' s)\<lparr>wpc := W_Stop\<rparr>
      | W_Stop \<Rightarrow> (emit [EvStop (\<not> cancelled s)] s)\<lparr>wpc := W_Cancel\<rparr>
      | W_Cancel \<Rightarrow> (emit [EvCancel WatcherRoutine] s)\<lparr>cancelled := True, wpc := W_Select\<rparr>
      | W_Warn2 \<Rightarrow> (logger_write inp WarnLevel ''mainRoutine context cancelled'' s)\<lparr>wpc := W_Send\<rparr>
      | W_Send \<Rightarrow>
          (if done_chan s < done_cap
           then (emit [EvDoneWrite] s)\<lparr>done_chan := done_chan s + 1, wpc := W_Returned\<rparr>
           else s)
      | W_Returned \<Rightarrow> s)"

text \<open>
  A termination signal that can be caught (an interrupt or a terminate signal). Before
  \<^verbatim>\<open>signal.Notify\<close> has run (line 80) nothing catches it and the process dies. Afterwards
  it is put into \<^verbatim>\<open>sigs\<close>, or dropped when the channel is full (the delivery never
  blocks).
\<close>

definition signal_step :: "state \<Rightarrow> state" where
  "signal_step s =
     (if wpc s = W_None \<or> wpc s = W_Notify then (emit [EvSignal, EvKilled] s)\<lparr>proc := Killed\<rparr>
      else if sigs s < sigs_cap then (emit [EvSignal] s)\<lparr>sigs := sigs s + 1\<rparr>
      else emit [EvSignal] s)"

text \<open>
  The service is handed \<^verbatim>\<open>cancelFunc\<close> as the second argument of \<^verbatim>\<open>Start\<close> (line 96);
  from that call on it may invoke it.
\<close>

definition service_cancel_step :: "state \<Rightarrow> state" where
  "service_cancel_step s =
     (if svc_cancel s then (emit [EvCancel ServiceRoutine] s)\<lparr>cancelled := True\<rparr> else s)"

datatype action = ActMain | ActWatcher bool | ActSignal | ActServiceCancel

definition step :: "input \<Rightarrow> action \<Rightarrow> state \<Rightarrow> state" where
  "step inp a s =
     (if proc s \<noteq> Alive then s
      else case a of
             ActMain \<Rightarrow> main_step inp s
           | ActWatcher pick_sig \<Rightarrow> watcher_step inp pick_sig s
           | ActSignal \<Rightarrow> signal_step s
           | ActServiceCancel \<Rightarrow> service_cancel_step s)"

definition exec :: "input \<Rightarrow> action list \<Rightarrow> state \<Rightarrow> state" where
  "exec inp sched s = fold (step inp) sched s"

definition run :: "input \<Rightarrow> action list \<Rightarrow> state" where
  "run inp sched = exec inp sched init"

section \<open>Example inputs and auxiliary definitions\<close>

definition no_flags :: flags where
  "no_flags = \<lparr>flag_debug = None, flag_server_host = None, flag_server_port = None\<rparr>"

text \<open>
  A run of the example input: the example conversions, an empty environment and no flag;
  the two arguments tell whether the service's constructor and its \<^verbatim>\<open>Start\<close> fail.
\<close>

definition example_input :: "bool \<Rightarrow> bool \<Rightarrow> input" where
  "example_input nf sf =
     \<lparr>in_dec = example_decoders, in_version = ''1.0'', in_env = [], in_flags = no_flags,
      new_fails = nf, start_fails = sf\<rparr>"

text \<open>The value that \<^const>\<open>initConfig\<close> stores under a key below \<^verbatim>\<open>otlp_inf\<close> whose
  default is \<open>d\<close>; \<open>None\<close> when it stores none.\<close>

definition setting :: "environ \<Rightarrow> string \<Rightarrow> cfg_value \<Rightarrow> cfg_value option" where
  "setting e k d =
     (case getEnv e k of
        Some v \<Rightarrow> Some (VString v)
      | None \<Rightarrow> if getEnv e ''otlp_inf'' = None then Some d else None)"

text \<open>The value of a field after \<^const>\<open>Unmarshal\<close>, from the stored value \<open>so\<close> of its key
  and the field's value \<open>cur\<close> before.\<close>

definition field_value :: "(cfg_value \<Rightarrow> 'a option) \<Rightarrow> cfg_value option \<Rightarrow> 'a \<Rightarrow> 'a option" where
  "field_value dcd so cur = (case so of None \<Rightarrow> Some cur | Some v \<Rightarrow> dcd v)"

text \<open>Schedules of the example runs. \<open>running_sched\<close> brings the run to the point where
  \<^verbatim>\<open>Start\<close> has returned, the main routine waits on line 102 and the watcher waits at its
  \<^verbatim>\<open>select\<close>.\<close>

definition running_sched :: "action list" where
  "running_sched = replicate 4 ActMain @ [ActWatcher False, ActMain, ActMain]"

definition two_signal_sched :: "action list" where
  "two_signal_sched =
     running_sched @
     [ActSignal, ActWatcher True, ActWatcher True, ActSignal, ActWatcher True, ActWatcher True] @
     replicate 7 (ActWatcher True) @ replicate 3 ActMain"

text \<open>In \<open>early_signal_sched\<close> the signal arrives when \<^verbatim>\<open>Start\<close> has returned and the
  watcher has not yet reached \<^verbatim>\<open>signal.Notify\<close> on line 80.\<close>

definition early_signal_sched :: "action list" where
  "early_signal_sched = replicate 6 ActMain @ [ActSignal]"

definition send_sched :: "action list" where
  "send_sched = running_sched @ [ActSignal] @ replicate 6 (ActWatcher True)"

definition stop_then_start_fails_sched :: "action list" where
  "stop_then_start_fails_sched =
     replicate 5 ActMain @ [ActWatcher False, ActSignal] @ replicate 3 (ActWatcher False) @
     replicate 3 ActMain"

definition service_cancel_sched :: "action list" where
  "service_cancel_sched =
     replicate 5 ActMain @ [ActServiceCancel] @ replicate 4 (ActWatcher False) @
     replicate 4 ActMain"

text \<open>The events that one action adds to the trace of a state.\<close>

definition new_events :: "input \<Rightarrow> action \<Rightarrow> state \<Rightarrow> event list" where
  "new_events inp a s = drop (length (trace s)) (trace (step inp a s))"

text \<open>
  The lifecycle events of a trace: the calls of \<^verbatim>\<open>Stop\<close>, the cancellations, the writes to
  the channel \<^verbatim>\<open>done\<close> and the exit. \<open>full_life\<close> is the orderly shutdown.
\<close>

definition is_life :: "event \<Rightarrow> bool" where
  "is_life e =
     (case e of
        EvStop _ \<Rightarrow> True
      | EvCancel _ \<Rightarrow> True
      | EvDoneWrite \<Rightarrow> True
      | EvExit _ \<Rightarrow> True
      | _ \<Rightarrow> False)"

definition life :: "event list \<Rightarrow> event list" where
  "life tr = filter is_life tr"

definition full_life :: "event list" where
  "full_life = [EvStop True, EvCancel WatcherRoutine, EvDoneWrite, EvExit 0]"

text \<open>
  The resolution succeeds, and neither the service's constructor nor its \<^verbatim>\<open>Start\<close> fails.
\<close>

definition setup_ok :: "input \<Rightarrow> bool" where
  "setup_ok inp =
     (case Run_config (in_dec inp) (in_version inp) (in_env inp) (bind_flags (in_flags inp)) of
        Inl _ \<Rightarrow> False
      | Inr _ \<Rightarrow> \<not> new_fails inp \<and> \<not> start_fails inp)"

definition start_error_msg :: string where
  "start_error_msg = ''otlpinf startup error''"

subsection \<open>Invariants\<close>

fun before_go :: "main_pc \<Rightarrow> bool" where
  "before_go M_Config = True"
| "before_go M_Logger = True"
| "before_go M_New = True"
| "before_go M_NewErr = True"
| "before_go M_NewExit = True"
| "before_go M_Go = True"
| "before_go _ = False"

text \<open>The channel \<^verbatim>\<open>done\<close>: written exactly when the watcher has returned.\<close>

definition done_inv :: "state \<Rightarrow> bool" where
  "done_inv s =
     (count_list (trace s) EvDoneWrite = (if wpc s = W_Returned then 1 else 0) \<and>
      (wpc s \<noteq> W_Returned \<longrightarrow> done_chan s = 0) \<and>
      done_chan s \<le> 1 \<and>
      (wpc s = W_Warn2 \<or> wpc s = W_Send \<or> wpc s = W_Returned \<longrightarrow> cancelled s) \<and>
      (before_go (mpc s) \<longrightarrow> wpc s = W_None))"

text \<open>Facts about exits, the deferred \<^verbatim>\<open>Sync\<close>, a failed \<^verbatim>\<open>Start\<close> and the origin of
  \<^verbatim>\<open>Stop\<close>.\<close>

definition fail_inv :: "input \<Rightarrow> state \<Rightarrow> bool" where
  "fail_inv inp s =
     ((start_fails inp \<longrightarrow>
         mpc s \<noteq> M_Wait \<and> mpc s \<noteq> M_Defer \<and> mpc s \<noteq> M_Return \<and>
         EvDoneRead \<notin> set (trace s)) \<and>
      (case proc s of
         Exited c \<Rightarrow>
           trace s \<noteq> [] \<and> last (trace s) = EvExit c \<and>
           (c = 1 \<and> (mpc s = M_Config \<or> mpc s = M_NewExit \<or> mpc s = M_StartExit) \<or>
            c = 0 \<and> mpc s = M_Return)
       | _ \<Rightarrow> True) \<and>
      (EvSync \<in> set (trace s) \<longrightarrow> mpc s = M_Return) \<and>
      (EvStartReturn False \<in> set (trace s) \<longrightarrow> mpc s = M_StartErr \<or> mpc s = M_StartExit) \<and>
      (mpc s = M_StartExit \<longrightarrow> EvLog ErrorLevel start_error_msg \<in> set (trace s)) \<and>
      (svc_cancel s \<longrightarrow>
         EvStartCall True \<in> set (trace s) \<or> EvStartCall False \<in> set (trace s)) \<and>
      (0 < sigs s \<or> wpc s = W_Warn1 \<or> wpc s = W_Stop \<or>
         EvStop True \<in> set (trace s) \<or> EvStop False \<in> set (trace s)
       \<longrightarrow> EvSignal \<in> set (trace s)))"

text \<open>An upper bound on the steps that the main routine still takes when \<^verbatim>\<open>Start\<close> fails.\<close>

fun fail_left :: "main_pc \<Rightarrow> nat" where
  "fail_left M_Config = 8"
| "fail_left M_Logger = 7"
| "fail_left M_New = 6"
| "fail_left M_Go = 5"
| "fail_left M_Start = 4"
| "fail_left M_Started = 3"
| "fail_left M_StartErr = 2"
| "fail_left M_StartExit = 1"
| "fail_left M_NewErr = 2"
| "fail_left M_NewExit = 1"
| "fail_left _ = 9"

text \<open>
  A calm run: at most one termination signal has reached the process, and the service has
  not invoked \<^verbatim>\<open>cancelFunc\<close>. In a calm run of a good setup the watcher's program counter
  determines the lifecycle events so far (\<open>watcher_table\<close>), and the main routine is where
  the channel \<^verbatim>\<open>done\<close> allows (\<open>main_table\<close>).
\<close>

definition calm :: "state \<Rightarrow> bool" where
  "calm s = (count_list (trace s) EvSignal \<le> 1 \<and> EvCancel ServiceRoutine \<notin> set (trace s))"

definition watcher_table :: "state \<Rightarrow> bool" where
  "watcher_table s =
     (case wpc s of
        W_None \<Rightarrow>
          life (trace s) = [] \<and> \<not> cancelled s \<and> sigs s = 0 \<and>
          (proc s = Alive \<longrightarrow> count_list (trace s) EvSignal = 0)
      | W_Notify \<Rightarrow>
          life (trace s) = [] \<and> \<not> cancelled s \<and> sigs s = 0 \<and>
          (proc s = Alive \<longrightarrow> count_list (trace s) EvSignal = 0)
      | W_Select \<Rightarrow>
          sigs s + (if cancelled s then 1 else 0) = count_list (trace s) EvSignal \<and>
          life (trace s) = (if cancelled s then [EvStop True, EvCancel WatcherRoutine] else [])
      | W_Warn1 \<Rightarrow>
          life (trace s) = [] \<and> \<not> cancelled s \<and> sigs s = 0 \<and>
          count_list (trace s) EvSignal = 1
      | W_Stop \<Rightarrow>
          life (trace s) = [] \<and> \<not> cancelled s \<and> sigs s = 0 \<and>
          count_list (trace s) EvSignal = 1
      | W_Cancel \<Rightarrow>
          life (trace s) = [EvStop True] \<and> \<not> cancelled s \<and> sigs s = 0 \<and>
          count_list (trace s) EvSignal = 1
      | W_Warn2 \<Rightarrow>
          life (trace s) = [EvStop True, EvCancel WatcherRoutine] \<and> cancelled s \<and> sigs s = 0 \<and>
          count_list (trace s) EvSignal = 1
      | W_Send \<Rightarrow>
          life (trace s) = [EvStop True, EvCancel WatcherRoutine] \<and> cancelled s \<and> sigs s = 0 \<and>
          count_list (trace s) EvSignal = 1
      | W_Returned \<Rightarrow>
          life (trace s) =
            [EvStop True, EvCancel WatcherRoutine, EvDoneWrite] @
            (if proc s = Exited 0 then [EvExit 0] else []) \<and>
          cancelled s \<and> sigs s = 0 \<and> count_list (trace s) EvSignal = 1)"

definition main_table :: "state \<Rightarrow> bool" where
  "main_table s =
     ((before_go (mpc s) \<longrightarrow> wpc s = W_None) \<and>
      (case proc s of Exited c \<Rightarrow> c = 0 \<and> mpc s = M_Return | _ \<Rightarrow> True) \<and>
      (mpc s = M_Defer \<or> mpc s = M_Return \<longrightarrow> wpc s = W_Returned) \<and>
      done_chan s =
        (if wpc s = W_Returned \<and> mpc s \<noteq> M_Defer \<and> mpc s \<noteq> M_Return then 1 else 0) \<and>
      mpc s \<noteq> M_NewErr \<and> mpc s \<noteq> M_NewExit \<and> mpc s \<noteq> M_StartErr \<and> mpc s \<noteq> M_StartExit)"

definition single_inv :: "input \<Rightarrow> state \<Rightarrow> bool" where
  "single_inv inp s = (setup_ok inp \<and> calm s \<longrightarrow> watcher_table s \<and> main_table s)"

text \<open>
  The steps that the watcher and the main routine still take to finish an orderly
  shutdown, and the states of a calm run of a good setup in which the one signal has
  arrived.
\<close>

fun watcher_left :: "watcher_pc \<Rightarrow> bool \<Rightarrow> nat" where
  "watcher_left W_None c = 9"
| "watcher_left W_Notify c = 8"
| "watcher_left W_Select c = (if c then 3 else 7)"
| "watcher_left W_Warn1 c = 6"
| "watcher_left W_Stop c = 5"
| "watcher_left W_Cancel c = 4"
| "watcher_left W_Warn2 c = 2"
| "watcher_left W_Send c = 1"
| "watcher_left W_Returned c = 0"

fun main_left :: "main_pc \<Rightarrow> nat" where
  "main_left M_Start = 5"
| "main_left M_Started = 4"
| "main_left M_Wait = 3"
| "main_left M_Defer = 2"
| "main_left M_Return = 1"
| "main_left _ = 6"

definition signalled :: "input \<Rightarrow> state \<Rightarrow> bool" where
  "signalled inp s =
     (setup_ok inp \<and> watcher_table s \<and> main_table s \<and> calm s \<and>
      count_list (trace s) EvSignal = 1 \<and> (proc s = Alive \<or> proc s = Exited 0))"

text \<open>
  The watcher has executed \<^verbatim>\<open>signal.Notify\<close> (line 80): from then on a termination signal
  is put on the channel \<^verbatim>\<open>sigs\<close>; before, it ends the process.
\<close>

definition registered :: "state \<Rightarrow> bool" where
  "registered s = (wpc s \<noteq> W_None \<and> wpc s \<noteq> W_Notify)"

section \<open>Configuration resolution\<close>

lemma env_key_debug: "env_key ''otlp_inf.debug'' = ''OTLP_INF_DEBUG''"
  by code_simp

lemma env_key_host: "env_key ''otlp_inf.server_host'' = ''OTLP_INF_SERVER_HOST''"
  by code_simp

lemma env_key_port: "env_key ''otlp_inf.server_port'' = ''OTLP_INF_SERVER_PORT''"
  by code_simp

lemma env_key_parent: "env_key ''otlp_inf'' = ''OTLP_INF''"
  by code_simp

lemma parent_keys_debug: "parent_keys ''otlp_inf.debug'' = [''otlp_inf'']"
  by code_simp

lemma parent_keys_host: "parent_keys ''otlp_inf.server_host'' = [''otlp_inf'']"
  by code_simp

lemma parent_keys_port: "parent_keys ''otlp_inf.server_port'' = [''otlp_inf'']"
  by code_simp

lemma Get_debug:
  "Get e defaults ''otlp_inf.debug'' = setting e ''otlp_inf.debug'' (VBool False)"
  by (simp add: Get_def setting_def isPathShadowedInAutoEnv_def parent_keys_debug defaults_def
      split: option.split)

lemma Get_host:
  "Get e defaults ''otlp_inf.server_host'' =
     setting e ''otlp_inf.server_host'' (VString ''localhost'')"
  by (simp add: Get_def setting_def isPathShadowedInAutoEnv_def parent_keys_host defaults_def
      split: option.split)

lemma Get_port:
  "Get e defaults ''otlp_inf.server_port'' = setting e ''otlp_inf.server_port'' (VInt 10222)"
  by (simp add: Get_def setting_def isPathShadowedInAutoEnv_def parent_keys_port defaults_def
      split: option.split)

lemma AllSettings_defaults:
  "AllSettings e defaults =
     (case Get e defaults ''otlp_inf.debug'' of
        None \<Rightarrow> [] | Some v \<Rightarrow> [(''otlp_inf.debug'', v)]) @
     (case Get e defaults ''otlp_inf.server_host'' of
        None \<Rightarrow> [] | Some v \<Rightarrow> [(''otlp_inf.server_host'', v)]) @
     (case Get e defaults ''otlp_inf.server_port'' of
        None \<Rightarrow> [] | Some v \<Rightarrow> [(''otlp_inf.server_port'', v)])"
  unfolding AllSettings_def by (simp add: defaults_def)

lemma initConfig_version: "map_of (initConfig e []) ''version'' = None"
  unfolding initConfig_def MergeConfigMap_def AllSettings_defaults
  by (simp split: option.split)

lemma initConfig_debug:
  "map_of (initConfig e []) ''otlp_inf.debug'' = setting e ''otlp_inf.debug'' (VBool False)"
  unfolding initConfig_def MergeConfigMap_def AllSettings_defaults Get_debug
  by (simp split: option.split)

lemma initConfig_host:
  "map_of (initConfig e []) ''otlp_inf.server_host'' =
     setting e ''otlp_inf.server_host'' (VString ''localhost'')"
  unfolding initConfig_def MergeConfigMap_def AllSettings_defaults Get_host
  by (simp split: option.split)

lemma initConfig_port:
  "map_of (initConfig e []) ''otlp_inf.server_port'' =
     setting e ''otlp_inf.server_port'' (VInt 10222)"
  unfolding initConfig_def MergeConfigMap_def AllSettings_defaults Get_port
  by (simp split: option.split)

text \<open>
  Each key of the configuration object has a default, so it is in the merged settings
  unless the variable \<^verbatim>\<open>OTLP_INF\<close> shadows it. \<^const>\<open>Unmarshal\<close> then overwrites the field
  that \<^verbatim>\<open>Run\<close> has just filled from the flag variable: the flag variables reach the
  result only through a shadowed key.
\<close>

lemma Run_config_eq:
  "Run_config dec ver e fv =
    (case field_value (decode_bool dec) (setting e ''otlp_inf.debug'' (VBool False))
            (var_Debug fv) of
        None \<Rightarrow> Inl ConfigDecodeError
      | Some d \<Rightarrow>
     (case field_value (decode_string dec)
             (setting e ''otlp_inf.server_host'' (VString ''localhost'')) (var_ServerHost fv) of
        None \<Rightarrow> Inl ConfigDecodeError
      | Some h \<Rightarrow>
     (case field_value (decode_uint dec) (setting e ''otlp_inf.server_port'' (VInt 10222))
             (var_ServerPort fv) of
        None \<Rightarrow> Inl ConfigDecodeError
      | Some p \<Rightarrow>
          Inr \<lparr>Version = ver, OtlpInf = \<lparr>Debug = d, ServerHost = h, ServerPort = p\<rparr>\<rparr>)))"
  unfolding Run_config_def Unmarshal_def decode_field_def Let_def field_value_def
    initConfig_version initConfig_debug initConfig_host initConfig_port
  by (simp split: option.split)

lemma field_value_Some: "field_value dcd (Some v) cur = dcd v"
  by (simp add: field_value_def)

lemma setting_unshadowed:
  "getEnv e ''otlp_inf'' = None \<Longrightarrow>
   setting e k d = Some (case getEnv e k of Some v \<Rightarrow> VString v | None \<Rightarrow> d)"
  by (simp add: setting_def split: option.split)

lemma Run_config_flag_vars:
  assumes "getEnv e ''otlp_inf'' = None"
  shows "Run_config dec ver e fv = Run_config dec ver e fv'"
  unfolding Run_config_eq setting_unshadowed [OF assms] field_value_Some ..

lemma Run_config_parts:
  assumes "Run_config dec ver e fv = Inr c"
  shows "field_value (decode_bool dec) (setting e ''otlp_inf.debug'' (VBool False))
           (var_Debug fv) = Some (Debug (OtlpInf c))"
    and "field_value (decode_string dec)
           (setting e ''otlp_inf.server_host'' (VString ''localhost'')) (var_ServerHost fv) =
           Some (ServerHost (OtlpInf c))"
    and "field_value (decode_uint dec) (setting e ''otlp_inf.server_port'' (VInt 10222))
           (var_ServerPort fv) = Some (ServerPort (OtlpInf c))"
    and "Version c = ver"
  using assms unfolding Run_config_eq by (auto split: option.splits)

lemma Run_config_no_env:
  "Run_config example_decoders ''1.0'' [] (bind_flags no_flags) =
     Inr \<lparr>Version = ''1.0'',
          OtlpInf = \<lparr>Debug = False, ServerHost = ''localhost'', ServerPort = 10222\<rparr>\<rparr>"
  by code_simp

lemma Run_config_env_port:
  "Run_config example_decoders ''1.0'' [(''OTLP_INF_SERVER_PORT'', ''9000'')] (bind_flags no_flags) =
     Inr \<lparr>Version = ''1.0'',
          OtlpInf = \<lparr>Debug = False, ServerHost = ''localhost'', ServerPort = 9000\<rparr>\<rparr>"
  by code_simp

lemma Run_config_env_debug:
  "Run_config example_decoders ''1.0'' [(''OTLP_INF_DEBUG'', ''true'')] (bind_flags no_flags) =
     Inr \<lparr>Version = ''1.0'',
          OtlpInf = \<lparr>Debug = True, ServerHost = ''localhost'', ServerPort = 10222\<rparr>\<rparr>"
  by code_simp

text \<open>With the variable \<^verbatim>\<open>OTLP_INF\<close> set, the three keys are shadowed, nothing is merged and
  the fields keep the values of the flag variables.\<close>

lemma Run_config_shadowed:
  "Run_config example_decoders ''1.0'' [(''OTLP_INF'', ''x'')]
     (bind_flags (no_flags\<lparr>flag_server_port := Some 8080\<rparr>)) =
     Inr \<lparr>Version = ''1.0'',
          OtlpInf = \<lparr>Debug = False, ServerHost = ''localhost'', ServerPort = 8080\<rparr>\<rparr>"
  by code_simp

text \<open>
  C1. The claim is that a flag given on the command line decides the resolved value.
  At the command line \<^verbatim>\<open>run -p 8080\<close> with an empty environment the resolved port
  is the default \<open>10222\<close>: the value of the flag is overwritten by \<^const>\<open>Unmarshal\<close>.
\<close>

theorem flag_port_is_overwritten:
  "Run_config example_decoders ''1.0'' [] (bind_flags (no_flags\<lparr>flag_server_port := Some 8080\<rparr>)) =
     Inr \<lparr>Version = ''1.0'',
          OtlpInf = \<lparr>Debug = False, ServerHost = ''localhost'', ServerPort = 10222\<rparr>\<rparr>"
  by code_simp

text \<open>
  C6, as the claim states it: with the environment variable \<^verbatim>\<open>SERVER_PORT=9000\<close> and no
  flag the resolved port would be \<open>9000\<close>. The variable that belongs to the key
  \<^verbatim>\<open>otlp_inf.server_port\<close> is \<^verbatim>\<open>OTLP_INF_SERVER_PORT\<close>; \<^verbatim>\<open>SERVER_PORT\<close> is not read, and the
  resolved port is the default.
\<close>

theorem server_port_env_name_counterexample:
  "Run_config example_decoders ''1.0'' [(''SERVER_PORT'', ''9000'')] (bind_flags no_flags) =
     Inr \<lparr>Version = ''1.0'',
          OtlpInf = \<lparr>Debug = False, ServerHost = ''localhost'', ServerPort = 10222\<rparr>\<rparr>
   \<and> (10222 :: 64 word) \<noteq> 9000"
  by code_simp

text \<open>
  C6, amended: the environment variable named as the upper-case key with dots replaced by
  underscores overrides the default. When the resolution succeeds with no flag given, a
  non-empty \<^verbatim>\<open>OTLP_INF_SERVER_PORT\<close> decides the resolved port through the library's
  conversion of its string; in particular \<^verbatim>\<open>OTLP_INF_SERVER_PORT=9000\<close> gives \<open>9000\<close>
  when the library reads \<^verbatim>\<open>"9000"\<close> as \<open>9000\<close>, and an unset variable gives the default
  \<open>10222\<close>.
\<close>

theorem env_port_overrides_default:
  assumes "Run_config dec ver e (bind_flags no_flags) = Inr c"
  shows "env_key ''otlp_inf.server_port'' = ''OTLP_INF_SERVER_PORT'' \<and>
     (\<forall>s. map_of e ''OTLP_INF_SERVER_PORT'' = Some s \<longrightarrow> s \<noteq> [] \<longrightarrow>
          weak_uint dec (VString s) = Some (ServerPort (OtlpInf c))) \<and>
     (map_of e ''OTLP_INF_SERVER_PORT'' = Some ''9000'' \<longrightarrow>
        weak_uint dec (VString ''9000'') = Some 9000 \<longrightarrow> ServerPort (OtlpInf c) = 9000) \<and>
     (map_of e ''OTLP_INF_SERVER_PORT'' = None \<longrightarrow> ServerPort (OtlpInf c) = 10222)"
proof -
  note port = Run_config_parts(3) [OF assms]
  have env: "\<And>s. map_of e ''OTLP_INF_SERVER_PORT'' = Some s \<Longrightarrow> s \<noteq> [] \<Longrightarrow>
      weak_uint dec (VString s) = Some (ServerPort (OtlpInf c))"
    using port
    by (simp add: field_value_def setting_def getEnv_def env_key_port decode_uint_def)
  have unset: "ServerPort (OtlpInf c) = 10222" if "map_of e ''OTLP_INF_SERVER_PORT'' = None"
  proof -
    have own: "getEnv e ''otlp_inf.server_port'' = None"
      using that by (simp add: getEnv_def env_key_port)
    show ?thesis
    proof (cases "getEnv e ''otlp_inf''")
      case None
      then show ?thesis
        using port own by (simp add: field_value_def setting_def decode_uint_def)
    next
      case (Some p)
      then show ?thesis
        using port own by (simp add: field_value_def setting_def bind_flags_def no_flags_def)
    qed
  qed
  have nine: "map_of e ''OTLP_INF_SERVER_PORT'' = Some ''9000'' \<Longrightarrow>
      weak_uint dec (VString ''9000'') = Some 9000 \<Longrightarrow> ServerPort (OtlpInf c) = 9000"
    using env [of "''9000''"] by simp
  show ?thesis
    using env unset nine env_key_port by blast
qed

theorem env_port_overrides_default_witness:
  "Run_config example_decoders ''1.0'' [(''OTLP_INF_SERVER_PORT'', ''9000'')] (bind_flags no_flags) =
     Inr \<lparr>Version = ''1.0'',
          OtlpInf = \<lparr>Debug = False, ServerHost = ''localhost'', ServerPort = 9000\<rparr>\<rparr>
   \<and> weak_uint example_decoders (VString ''9000'') = Some 9000
   \<and> Run_config example_decoders ''1.0'' [] (bind_flags no_flags) =
     Inr \<lparr>Version = ''1.0'',
          OtlpInf = \<lparr>Debug = False, ServerHost = ''localhost'', ServerPort = 10222\<rparr>\<rparr>"
  using env_port_overrides_default [OF Run_config_env_port]
    env_port_overrides_default [OF Run_config_no_env]
    Run_config_env_port Run_config_no_env
  by simp

section \<open>The logger's level\<close>


lemma Enabled_InfoLevel: "Enabled InfoLevel l = (l \<noteq> DebugLevel)"
  by (cases l) (simp_all add: Enabled_def)

lemma var_Debug_bind_flags: "var_Debug (bind_flags f) = (flag_debug f = Some True)"
  by (cases "flag_debug f") (simp_all add: bind_flags_def)



text \<open>
  C9. The level comes from the flag variable alone. When the debug flag is not given,
  the logger has level \<^verbatim>\<open>Info\<close> and writes no record of level \<^verbatim>\<open>Debug\<close>, whatever the
  environment holds; this is so even when the environment variable of the key
  \<^verbatim>\<open>otlp_inf.debug\<close> makes the resolved configuration say \<open>debug = true\<close>.
\<close>

theorem debug_env_does_not_reach_logger:
  assumes "flag_debug (in_flags inp) = None"
  shows "atomicLevel (bind_flags (in_flags inp)) = InfoLevel \<and>
     \<not> Enabled (atomicLevel (bind_flags (in_flags inp))) DebugLevel \<and>
     logger_write inp DebugLevel msg s = s \<and>
     (\<forall>v c. getEnv (in_env inp) ''otlp_inf.debug'' = Some v \<longrightarrow>
        weak_bool (in_dec inp) (VString v) = Some True \<longrightarrow>
        Run_config (in_dec inp) (in_version inp) (in_env inp) (bind_flags (in_flags inp)) = Inr c \<longrightarrow>
        Debug (OtlpInf c))"
proof -
  have lvl: "atomicLevel (bind_flags (in_flags inp)) = InfoLevel"
    using assms by (simp add: atomicLevel_def var_Debug_bind_flags)
  have cfg: "Debug (OtlpInf c)"
    if "getEnv (in_env inp) ''otlp_inf.debug'' = Some v"
      and "weak_bool (in_dec inp) (VString v) = Some True"
      and "Run_config (in_dec inp) (in_version inp) (in_env inp) (bind_flags (in_flags inp)) = Inr c"
    for v c
    using Run_config_parts(1) [OF that(3)] that(1,2)
    by (simp add: field_value_def setting_def decode_bool_def)
  show ?thesis
    using cfg by (simp add: lvl Enabled_InfoLevel logger_write_def)
qed

theorem debug_env_does_not_reach_logger_witness:
  "atomicLevel (bind_flags no_flags) = InfoLevel \<and>
   \<not> Enabled (atomicLevel (bind_flags no_flags)) DebugLevel \<and>
   Run_config example_decoders ''1.0'' [(''OTLP_INF_DEBUG'', ''true'')] (bind_flags no_flags) =
     Inr \<lparr>Version = ''1.0'',
          OtlpInf = \<lparr>Debug = True, ServerHost = ''localhost'', ServerPort = 10222\<rparr>\<rparr>"
proof -
  let ?inp = "(example_input False False)\<lparr>in_env := [(''OTLP_INF_DEBUG'', ''true'')]\<rparr>"
  have flags: "in_flags ?inp = no_flags"
    by (simp add: example_input_def)
  have absent: "flag_debug (in_flags ?inp) = None"
    by (simp add: example_input_def no_flags_def)
  have "atomicLevel (bind_flags (in_flags ?inp)) = InfoLevel \<and>
      \<not> Enabled (atomicLevel (bind_flags (in_flags ?inp))) DebugLevel"
    using debug_env_does_not_reach_logger [OF absent, of "[]" init] by blast
  then show ?thesis
    unfolding flags using Run_config_env_debug by blast
qed

section \<open>Runs: basic facts\<close>

lemma exec_Nil [simp]: "exec inp [] s = s"
  by (simp add: exec_def)

lemma exec_Cons [simp]: "exec inp (a # sched) s = exec inp sched (step inp a s)"
  by (simp add: exec_def)

lemma exec_append: "exec inp (xs @ ys) s = exec inp ys (exec inp xs s)"
  by (simp add: exec_def)

lemma step_main_alive: "proc s = Alive \<Longrightarrow> step inp ActMain s = main_step inp s"
  by (simp add: step_def)

lemma step_watcher_alive: "proc s = Alive \<Longrightarrow> step inp (ActWatcher b) s = watcher_step inp b s"
  by (simp add: step_def)

lemma step_not_alive: "proc s \<noteq> Alive \<Longrightarrow> step inp a s = s"
  by (simp add: step_def)

lemma Enabled_Warn [simp]: "Enabled (atomicLevel fv) WarnLevel"
  by (simp add: Enabled_def atomicLevel_def)

lemma Enabled_Error [simp]: "Enabled (atomicLevel fv) ErrorLevel"
  by (simp add: Enabled_def atomicLevel_def)

lemma logger_write_Warn [simp]:
  "logger_write inp WarnLevel msg s = emit [EvLog WarnLevel msg] s"
  by (simp add: logger_write_def)

lemma logger_write_Error [simp]:
  "logger_write inp ErrorLevel msg s = emit [EvLog ErrorLevel msg] s"
  by (simp add: logger_write_def)

lemma setup_ok_example: "setup_ok (example_input False False)"
  by code_simp

section \<open>The Completion Signal\<close>

lemma done_inv_init: "done_inv init"
  by (simp add: done_inv_def init_def)

lemma done_inv_main: "done_inv s \<Longrightarrow> done_inv (main_step inp s)"
  by (cases "mpc s")
    (auto simp: done_inv_def main_step_def emit_def os_Exit_def split: sum.splits)

lemma done_inv_watcher: "done_inv s \<Longrightarrow> done_inv (watcher_step inp b s)"
  by (cases "wpc s")
    (auto simp: done_inv_def watcher_step_def emit_def done_cap_def)

lemma done_inv_signal: "done_inv s \<Longrightarrow> done_inv (signal_step s)"
  by (auto simp: done_inv_def signal_step_def emit_def)

lemma done_inv_service: "done_inv s \<Longrightarrow> done_inv (service_cancel_step s)"
  by (auto simp: done_inv_def service_cancel_step_def emit_def)

lemma done_inv_step: "done_inv s \<Longrightarrow> done_inv (step inp a s)"
  by (cases a)
    (simp_all add: step_def done_inv_main done_inv_watcher done_inv_signal done_inv_service)

lemma done_inv_exec: "done_inv s \<Longrightarrow> done_inv (exec inp sched s)"
  by (induction sched arbitrary: s) (simp_all add: done_inv_step)

lemma done_inv_run: "done_inv (run inp sched)"
  by (simp add: run_def done_inv_exec done_inv_init)

text \<open>
  C5. In every run, whatever the schedule and however many termination signals it holds,
  the channel \<^verbatim>\<open>done\<close> is written at most once; and when it has been written, the root
  context is cancelled and the watcher has returned.
\<close>

theorem done_written_at_most_once:
  "count_list (trace (run inp sched)) EvDoneWrite \<le> 1 \<and>
   (EvDoneWrite \<in> set (trace (run inp sched)) \<longrightarrow>
      cancelled (run inp sched) \<and> wpc (run inp sched) = W_Returned)"
proof -
  have inv: "done_inv (run inp sched)"
    by (rule done_inv_run)
  have "EvDoneWrite \<in> set (trace (run inp sched)) \<Longrightarrow> wpc (run inp sched) = W_Returned"
    using inv by (auto simp: done_inv_def count_list_0_iff split: if_splits)
  then show ?thesis
    using inv by (auto simp: done_inv_def split: if_splits)
qed

theorem done_written_at_most_once_witness:
  "count_list (trace (run (example_input False False) two_signal_sched)) EvDoneWrite \<le> 1 \<and>
   EvDoneWrite \<in> set (trace (run (example_input False False) two_signal_sched)) \<and>
   cancelled (run (example_input False False) two_signal_sched) \<and>
   wpc (run (example_input False False) two_signal_sched) = W_Returned"
proof -
  have written: "EvDoneWrite \<in> set (trace (run (example_input False False) two_signal_sched))"
    by code_simp
  then show ?thesis
    using done_written_at_most_once [of "example_input False False" two_signal_sched] by blast
qed

text \<open>
  C10. The watcher's send on \<^verbatim>\<open>done\<close> never blocks: whenever the watcher stands at the send
  (line 89) in a live process, the channel holds fewer values than its capacity 1, so the
  watcher's next step performs the send and the watcher returns; it writes nothing more.
\<close>

theorem done_send_never_blocks:
  assumes "proc (run inp sched) = Alive" and "wpc (run inp sched) = W_Send"
  shows "done_chan (run inp sched) < done_cap \<and>
     wpc (step inp (ActWatcher b) (run inp sched)) = W_Returned \<and>
     trace (step inp (ActWatcher b) (run inp sched)) = trace (run inp sched) @ [EvDoneWrite] \<and>
     trace (step inp (ActWatcher b') (step inp (ActWatcher b) (run inp sched))) =
       trace (run inp sched) @ [EvDoneWrite]"
  using done_inv_run [of inp sched] assms
  by (simp add: done_inv_def step_def watcher_step_def emit_def done_cap_def)

theorem done_send_never_blocks_witness:
  "proc (run (example_input False False) send_sched) = Alive \<and>
   wpc (run (example_input False False) send_sched) = W_Send \<and>
   done_chan (run (example_input False False) send_sched) < done_cap \<and>
   wpc (step (example_input False False) (ActWatcher True)
         (run (example_input False False) send_sched)) = W_Returned"
proof -
  have at_send: "proc (run (example_input False False) send_sched) = Alive"
    "wpc (run (example_input False False) send_sched) = W_Send"
    by code_simp+
  show ?thesis
    using at_send done_send_never_blocks [OF at_send, of True True] by blast
qed

section \<open>Exits, the deferred flush and a failing \<^verbatim>\<open>Start\<close>\<close>

lemma fail_inv_init: "fail_inv inp init"
  by (simp add: fail_inv_def init_def)

lemma fail_inv_main: "fail_inv inp s \<Longrightarrow> proc s = Alive \<Longrightarrow> fail_inv inp (main_step inp s)"
  by (cases "mpc s")
    (auto simp: fail_inv_def main_step_def emit_def os_Exit_def start_error_msg_def
      split: sum.splits)

lemma fail_inv_watcher:
  "fail_inv inp s \<Longrightarrow> proc s = Alive \<Longrightarrow> fail_inv inp (watcher_step inp b s)"
  by (cases "wpc s") (auto simp: fail_inv_def watcher_step_def emit_def)

lemma fail_inv_signal: "fail_inv inp s \<Longrightarrow> proc s = Alive \<Longrightarrow> fail_inv inp (signal_step s)"
  by (auto simp: fail_inv_def signal_step_def emit_def)

lemma fail_inv_service:
  "fail_inv inp s \<Longrightarrow> proc s = Alive \<Longrightarrow> fail_inv inp (service_cancel_step s)"
  by (auto simp: fail_inv_def service_cancel_step_def emit_def)

lemma fail_inv_step: "fail_inv inp s \<Longrightarrow> fail_inv inp (step inp a s)"
  by (cases a)
    (simp_all add: step_def fail_inv_main fail_inv_watcher fail_inv_signal fail_inv_service)

lemma fail_inv_exec: "fail_inv inp s \<Longrightarrow> fail_inv inp (exec inp sched s)"
  by (induction sched arbitrary: s) (simp_all add: fail_inv_step)

lemma fail_inv_run: "fail_inv inp (run inp sched)"
  by (simp add: run_def fail_inv_exec fail_inv_init)

text \<open>
  The deferred \<^verbatim>\<open>Sync\<close> runs only when \<^verbatim>\<open>Run\<close> returns. No run that ends with exit code 1
  has flushed the logger.
\<close>

lemma exit_1_without_sync:
  assumes "proc (run inp sched) = Exited 1"
  shows "EvSync \<notin> set (trace (run inp sched))"
  using fail_inv_run [of inp sched] assms by (auto simp: fail_inv_def)

text \<open>
  C3. The logger would be flushed on every exit path of \<^verbatim>\<open>Run\<close>. When the service's
  constructor fails (line 68), and when \<^verbatim>\<open>Start\<close> fails (line 96), the deferred \<^verbatim>\<open>Sync\<close>
  is registered, the process exits with code 1 through \<^verbatim>\<open>os.Exit\<close>, and \<^verbatim>\<open>Sync\<close> has not
  run.
\<close>

theorem sync_skipped_on_error_exit:
  "deferred (run (example_input True False) (replicate 5 ActMain)) \<and>
   proc (run (example_input True False) (replicate 5 ActMain)) = Exited 1 \<and>
   EvSync \<notin> set (trace (run (example_input True False) (replicate 5 ActMain))) \<and>
   deferred (run (example_input False True) (replicate 8 ActMain)) \<and>
   proc (run (example_input False True) (replicate 8 ActMain)) = Exited 1 \<and>
   EvSync \<notin> set (trace (run (example_input False True) (replicate 8 ActMain)))"
  by code_simp

lemma failing_main:
  assumes "start_fails inp" and "proc s = Alive"
    and "mpc s \<noteq> M_Wait" and "mpc s \<noteq> M_Defer" and "mpc s \<noteq> M_Return"
  shows "(proc (main_step inp s) = Exited 1 \<or>
      proc (main_step inp s) = Alive \<and> fail_left (mpc (main_step inp s)) < fail_left (mpc s)) \<and>
     mpc (main_step inp s) \<noteq> M_Wait \<and> mpc (main_step inp s) \<noteq> M_Defer \<and>
     mpc (main_step inp s) \<noteq> M_Return"
  using assms
  by (cases "mpc s") (auto simp: main_step_def emit_def os_Exit_def split: sum.splits)

lemma failing_mains:
  assumes "start_fails inp" and "proc s = Alive \<or> proc s = Exited 1"
    and "mpc s \<noteq> M_Wait" and "mpc s \<noteq> M_Defer" and "mpc s \<noteq> M_Return"
    and "proc s = Alive \<longrightarrow> fail_left (mpc s) \<le> n"
  shows "proc (exec inp (replicate n ActMain) s) = Exited 1"
  using assms
proof (induction n arbitrary: s)
  case 0
  then show ?case
    by (cases "mpc s") auto
next
  case (Suc n)
  show ?case
  proof (cases "proc s = Alive")
    case True
    note step = failing_main [OF Suc.prems(1) True Suc.prems(3,4,5)]
    have "proc (main_step inp s) = Alive \<longrightarrow> fail_left (mpc (main_step inp s)) \<le> n"
      using step Suc.prems(6) True by auto
    with step Suc.IH [of "main_step inp s"] Suc.prems(1) True show ?thesis
      by (auto simp: step_main_alive)
  next
    case False
    then have "step inp ActMain s = s"
      by (simp add: step_not_alive)
    with Suc.IH [of s] Suc.prems False show ?thesis
      by simp
  qed
qed

lemma main_never_stops: "EvStop live \<notin> set (new_events inp ActMain s)"
  by (cases "mpc s")
    (auto simp: new_events_def step_def main_step_def emit_def os_Exit_def split: sum.splits)

text \<open>
  C4, as stated: when \<^verbatim>\<open>Start\<close> fails, \<^verbatim>\<open>Stop\<close> would never be called. The watcher runs
  from line 78 on. A termination signal that arrives while \<^verbatim>\<open>Start\<close> is in progress makes
  the watcher call \<^verbatim>\<open>Stop\<close>; \<^verbatim>\<open>Start\<close> then returns its error and the process exits with
  code 1.
\<close>

theorem stop_called_although_start_fails_counterexample:
  "start_fails (example_input False True) \<and>
   proc (run (example_input False True) stop_then_start_fails_sched) = Exited 1 \<and>
   trace (run (example_input False True) stop_then_start_fails_sched) =
     [EvNew, EvStartCall True, EvSignal,
      EvLog WarnLevel ''stop signal received, stopping otlpinf'', EvStop True,
      EvStartReturn False, EvLog ErrorLevel ''otlpinf startup error'', EvExit 1]"
  by code_simp

text \<open>
  C4, amended. When \<^verbatim>\<open>Start\<close> fails: the main routine never calls \<^verbatim>\<open>Stop\<close> and never waits
  on or reads the channel \<^verbatim>\<open>done\<close>; the process exits with no code but 1; \<^verbatim>\<open>Stop\<close> is
  called in no run that no termination signal has reached; an exit that follows the failed
  \<^verbatim>\<open>Start\<close> comes after the error has been logged; and the exit does happen, after at most
  eight steps of the main routine.
\<close>

theorem start_failure_exits_1:
  assumes "start_fails inp"
  shows "(\<forall>s live. EvStop live \<notin> set (new_events inp ActMain s)) \<and>
     mpc (run inp sched) \<noteq> M_Wait \<and>
     EvDoneRead \<notin> set (trace (run inp sched)) \<and>
     (\<forall>c. proc (run inp sched) = Exited c \<longrightarrow> c = 1) \<and>
     (EvSignal \<notin> set (trace (run inp sched)) \<longrightarrow>
        (\<forall>live. EvStop live \<notin> set (trace (run inp sched)))) \<and>
     (\<forall>c. proc (run inp sched) = Exited c \<and> EvStartReturn False \<in> set (trace (run inp sched)) \<longrightarrow>
        last (trace (run inp sched)) = EvExit 1 \<and>
        EvLog ErrorLevel start_error_msg \<in> set (butlast (trace (run inp sched)))) \<and>
     (proc (run inp sched) = Alive \<longrightarrow>
        proc (exec inp (replicate 8 ActMain) (run inp sched)) = Exited 1)"
proof -
  let ?s = "run inp sched"
  have inv: "fail_inv inp ?s"
    by (rule fail_inv_run)
  have a: "mpc ?s \<noteq> M_Wait" "mpc ?s \<noteq> M_Defer" "mpc ?s \<noteq> M_Return"
    "EvDoneRead \<notin> set (trace ?s)"
    using inv assms by (simp_all add: fail_inv_def)
  have b: "c = 1" if "proc ?s = Exited c" for c
    using inv that a by (auto simp: fail_inv_def)
  have c: "EvStop live \<notin> set (trace ?s)" if "EvSignal \<notin> set (trace ?s)" for live
    using inv that by (cases live) (auto simp: fail_inv_def)
  have d: "last (trace ?s) = EvExit 1 \<and>
      EvLog ErrorLevel start_error_msg \<in> set (butlast (trace ?s))"
    if "proc ?s = Exited c" and "EvStartReturn False \<in> set (trace ?s)" for c
  proof -
    have c1: "c = 1"
      using b that(1) .
    have "trace ?s \<noteq> []" and "last (trace ?s) = EvExit 1"
      using inv that(1) c1 by (simp_all add: fail_inv_def)
    then obtain tr where tr: "trace ?s = tr @ [EvExit 1]"
      by (metis append_butlast_last_id)
    have "mpc ?s = M_StartErr \<or> mpc ?s = M_StartExit"
      using inv that(2) by (simp add: fail_inv_def)
    moreover have "mpc ?s = M_Config \<or> mpc ?s = M_NewExit \<or> mpc ?s = M_StartExit"
      using inv that(1) c1 by (simp add: fail_inv_def)
    ultimately have "mpc ?s = M_StartExit"
      by auto
    then have "EvLog ErrorLevel start_error_msg \<in> set (trace ?s)"
      using inv by (simp add: fail_inv_def)
    then show ?thesis
      by (simp add: tr)
  qed
  have e: "proc (exec inp (replicate 8 ActMain) ?s) = Exited 1" if "proc ?s = Alive"
  proof -
    have "fail_left (mpc ?s) \<le> 8"
      using a by (cases "mpc ?s") simp_all
    then show ?thesis
      using failing_mains [of inp ?s 8] assms that a by simp
  qed
  show ?thesis
    using a b c d e main_never_stops by blast
qed

theorem start_failure_exits_1_witness:
  "start_fails (example_input False True) \<and>
   proc (run (example_input False True) (replicate 3 ActMain)) = Alive \<and>
   mpc (run (example_input False True) (replicate 3 ActMain)) \<noteq> M_Wait \<and>
   proc (exec (example_input False True) (replicate 8 ActMain)
          (run (example_input False True) (replicate 3 ActMain))) = Exited 1"
proof -
  have fails: "start_fails (example_input False True)"
    by (simp add: example_input_def)
  have alive: "proc (run (example_input False True) (replicate 3 ActMain)) = Alive"
    by code_simp
  show ?thesis
    using fails alive start_failure_exits_1 [OF fails, of "replicate 3 ActMain"] by blast
qed

section \<open>Who cancels the root context and who writes the Completion Signal\<close>

text \<open>
  C8, as stated: only the signal-handling routine would be able to cancel the root
  context. Line 96 passes \<^verbatim>\<open>cancelFunc\<close> to the service's \<^verbatim>\<open>Start\<close>. After that call the
  service holds it; in the run below the service invokes it, no signal arrives, \<^verbatim>\<open>Stop\<close>
  is never called, and the process exits with code 0.
\<close>

theorem service_holds_cancel_counterexample:
  "svc_cancel (run (example_input False False) (replicate 5 ActMain)) \<and>
   trace (run (example_input False False) service_cancel_sched) =
     [EvNew, EvStartCall True, EvCancel ServiceRoutine,
      EvLog WarnLevel ''mainRoutine context cancelled'', EvDoneWrite,
      EvStartReturn True, EvDoneRead, EvSync, EvExit 0]"
  by code_simp

text \<open>
  C8, amended. A call of \<^verbatim>\<open>cancelFunc\<close> is a step of the watcher at line 86, or a step of
  the service, which has been handed \<^verbatim>\<open>cancelFunc\<close> in the call of \<^verbatim>\<open>Start\<close> and holds it
  only from that call on; no other routine cancels the root context. The channel \<^verbatim>\<open>done\<close>
  is written only by the watcher (line 89) and read only by the main routine (line 102).
\<close>

theorem cancel_and_done_writers:
  "(EvCancel r \<in> set (new_events inp a s) \<longrightarrow>
      (a = ActServiceCancel \<and> r = ServiceRoutine \<and> svc_cancel s) \<or>
      ((a = ActWatcher True \<or> a = ActWatcher False) \<and> r = WatcherRoutine \<and> wpc s = W_Cancel)) \<and>
   (EvDoneWrite \<in> set (new_events inp a s) \<longrightarrow>
      (a = ActWatcher True \<or> a = ActWatcher False) \<and> wpc s = W_Send) \<and>
   (EvDoneRead \<in> set (new_events inp a s) \<longrightarrow> a = ActMain \<and> mpc s = M_Wait) \<and>
   (svc_cancel (run inp sched) \<longrightarrow>
      EvStartCall True \<in> set (trace (run inp sched)) \<or>
      EvStartCall False \<in> set (trace (run inp sched)))"
proof -
  have main: "EvCancel r \<notin> set (new_events inp ActMain s) \<and>
      EvDoneWrite \<notin> set (new_events inp ActMain s) \<and>
      (EvDoneRead \<in> set (new_events inp ActMain s) \<longrightarrow> mpc s = M_Wait)"
    by (cases "mpc s")
      (auto simp: new_events_def step_def main_step_def emit_def os_Exit_def split: sum.splits)
  have watcher: "(EvCancel r \<in> set (new_events inp (ActWatcher b) s) \<longrightarrow>
        r = WatcherRoutine \<and> wpc s = W_Cancel) \<and>
      (EvDoneWrite \<in> set (new_events inp (ActWatcher b) s) \<longrightarrow> wpc s = W_Send) \<and>
      EvDoneRead \<notin> set (new_events inp (ActWatcher b) s)" for b
    by (cases "wpc s") (auto simp: new_events_def step_def watcher_step_def emit_def)
  have signal: "EvCancel r \<notin> set (new_events inp ActSignal s) \<and>
      EvDoneWrite \<notin> set (new_events inp ActSignal s) \<and>
      EvDoneRead \<notin> set (new_events inp ActSignal s)"
    by (auto simp: new_events_def step_def signal_step_def emit_def)
  have service: "(EvCancel r \<in> set (new_events inp ActServiceCancel s) \<longrightarrow>
        r = ServiceRoutine \<and> svc_cancel s) \<and>
      EvDoneWrite \<notin> set (new_events inp ActServiceCancel s) \<and>
      EvDoneRead \<notin> set (new_events inp ActServiceCancel s)"
    by (auto simp: new_events_def step_def service_cancel_step_def emit_def)
  have held: "svc_cancel (run inp sched) \<longrightarrow>
      EvStartCall True \<in> set (trace (run inp sched)) \<or>
      EvStartCall False \<in> set (trace (run inp sched))"
    using fail_inv_run [of inp sched] by (simp add: fail_inv_def)
  show ?thesis
  proof (cases a)
    case ActMain
    then show ?thesis
      using main held by simp
  next
    case (ActWatcher b)
    then show ?thesis
      using watcher [of b] held by (cases b) auto
  next
    case ActSignal
    then show ?thesis
      using signal held by simp
  next
    case ActServiceCancel
    then show ?thesis
      using service held by simp
  qed
qed

theorem cancel_and_done_writers_witness:
  "EvCancel ServiceRoutine \<in>
     set (new_events (example_input False False) ActServiceCancel
           (run (example_input False False) (replicate 5 ActMain))) \<and>
   svc_cancel (run (example_input False False) (replicate 5 ActMain)) \<and>
   EvStartCall True \<in> set (trace (run (example_input False False) (replicate 5 ActMain)))"
proof -
  have cancels: "EvCancel ServiceRoutine \<in>
      set (new_events (example_input False False) ActServiceCancel
            (run (example_input False False) (replicate 5 ActMain)))"
    by code_simp
  have called: "EvStartCall True \<in>
      set (trace (run (example_input False False) (replicate 5 ActMain)))"
    by code_simp
  show ?thesis
    using cancels called
      cancel_and_done_writers [of ServiceRoutine "example_input False False" ActServiceCancel
        "run (example_input False False) (replicate 5 ActMain)" "replicate 5 ActMain"]
    by blast
qed

section \<open>The orderly shutdown\<close>

lemma life_append [simp]: "life (xs @ ys) = life xs @ life ys"
  by (simp add: life_def)

lemma life_simps [simp]:
  "life [] = []"
  "life (EvStop b # tr) = EvStop b # life tr"
  "life (EvCancel r # tr) = EvCancel r # life tr"
  "life (EvDoneWrite # tr) = EvDoneWrite # life tr"
  "life (EvExit c # tr) = EvExit c # life tr"
  "life (EvStderr e # tr) = life tr"
  "life (EvLog l m # tr) = life tr"
  "life (EvSync # tr) = life tr"
  "life (EvNew # tr) = life tr"
  "life (EvStartCall b # tr) = life tr"
  "life (EvStartReturn b # tr) = life tr"
  "life (EvSignal # tr) = life tr"
  "life (EvDoneRead # tr) = life tr"
  "life (EvKilled # tr) = life tr"
  by (simp_all add: life_def is_life_def)

lemma trace_main_step:
  "\<exists>evs. trace (main_step inp s) = trace s @ evs \<and> EvSignal \<notin> set evs \<and>
     EvCancel ServiceRoutine \<notin> set evs"
  by (cases "mpc s") (auto simp: main_step_def emit_def os_Exit_def split: sum.splits)

lemma trace_watcher_step:
  "\<exists>evs. trace (watcher_step inp b s) = trace s @ evs \<and> EvSignal \<notin> set evs \<and>
     EvCancel ServiceRoutine \<notin> set evs"
  by (cases "wpc s") (auto simp: watcher_step_def emit_def)

lemma calm_main: "calm (main_step inp s) = calm s"
  using trace_main_step [of inp s] by (auto simp: calm_def count_list_0_iff)

lemma calm_watcher: "calm (watcher_step inp b s) = calm s"
  using trace_watcher_step [of inp b s] by (auto simp: calm_def count_list_0_iff)

lemma single_inv_init: "single_inv inp init"
  by (simp add: single_inv_def watcher_table_def main_table_def init_def)

lemma single_inv_main:
  assumes "single_inv inp s" and "proc s = Alive"
  shows "single_inv inp (main_step inp s)"
proof -
  have "watcher_table (main_step inp s) \<and> main_table (main_step inp s)"
    if ok: "setup_ok inp" and c: "calm (main_step inp s)"
  proof -
    from c have "calm s"
      by (simp add: calm_main)
    with assms ok have w: "watcher_table s" and m: "main_table s"
      by (simp_all add: single_inv_def)
    show ?thesis
      using w m ok assms(2)
      by (cases "mpc s"; cases "wpc s")
        (auto simp: watcher_table_def main_table_def main_step_def emit_def os_Exit_def
          setup_ok_def split: sum.splits)
  qed
  then show ?thesis
    by (simp add: single_inv_def)
qed

lemma single_inv_watcher:
  assumes "single_inv inp s" and "proc s = Alive"
  shows "single_inv inp (watcher_step inp b s)"
proof -
  have "watcher_table (watcher_step inp b s) \<and> main_table (watcher_step inp b s)"
    if ok: "setup_ok inp" and c: "calm (watcher_step inp b s)"
  proof -
    from c have cs: "calm s"
      by (simp add: calm_watcher)
    with assms ok have w: "watcher_table s" and m: "main_table s"
      by (simp_all add: single_inv_def)
    show ?thesis
      using w m cs assms(2)
      by (cases "wpc s"; cases "mpc s")
        (auto simp: watcher_table_def main_table_def watcher_step_def emit_def calm_def
          done_cap_def)
  qed
  then show ?thesis
    by (simp add: single_inv_def)
qed

lemma single_inv_signal:
  assumes "single_inv inp s" and "proc s = Alive"
  shows "single_inv inp (signal_step s)"
proof -
  have "watcher_table (signal_step s) \<and> main_table (signal_step s)"
    if ok: "setup_ok inp" and c: "calm (signal_step s)"
  proof -
    from c have cs: "calm s" and fresh: "count_list (trace s) EvSignal = 0"
      by (auto simp: calm_def signal_step_def emit_def split: if_splits)
    with assms ok have w: "watcher_table s" and m: "main_table s"
      by (simp_all add: single_inv_def)
    show ?thesis
      using w m fresh assms(2)
      by (cases "wpc s")
        (auto simp: watcher_table_def main_table_def signal_step_def emit_def sigs_cap_def
          split: if_splits)
  qed
  then show ?thesis
    by (simp add: single_inv_def)
qed

lemma single_inv_service:
  assumes "single_inv inp s" and "proc s = Alive"
  shows "single_inv inp (service_cancel_step s)"
proof -
  have "watcher_table (service_cancel_step s) \<and> main_table (service_cancel_step s)"
    if ok: "setup_ok inp" and c: "calm (service_cancel_step s)"
  proof -
    from c have cs: "calm s" and idle: "service_cancel_step s = s"
      by (auto simp: calm_def service_cancel_step_def emit_def split: if_splits)
    with assms ok show ?thesis
      by (simp add: single_inv_def)
  qed
  then show ?thesis
    by (simp add: single_inv_def)
qed

lemma single_inv_step: "single_inv inp s \<Longrightarrow> single_inv inp (step inp a s)"
  by (cases a)
    (simp_all add: step_def single_inv_main single_inv_watcher single_inv_signal
      single_inv_service)

lemma single_inv_exec: "single_inv inp s \<Longrightarrow> single_inv inp (exec inp sched s)"
  by (induction sched arbitrary: s) (simp_all add: single_inv_step)

lemma single_inv_run: "single_inv inp (run inp sched)"
  by (simp add: run_def single_inv_exec single_inv_init)

lemma single_life_prefix:
  assumes "watcher_table s"
  shows "prefix (life (trace s)) full_life"
  using assms
  by (cases "wpc s") (auto simp: watcher_table_def full_life_def prefix_def split: if_splits)

lemma single_life_exited:
  assumes "watcher_table s" and "main_table s" and "proc s = Exited c"
  shows "c = 0 \<and> life (trace s) = full_life"
  using assms
  by (cases "wpc s") (auto simp: watcher_table_def main_table_def full_life_def)

subsection \<open>Progress once the signal has arrived\<close>

lemma signalled_watcher:
  assumes "signalled inp s" and "proc s = Alive"
  shows "signalled inp (watcher_step inp b s) \<and> proc (watcher_step inp b s) = Alive \<and>
     watcher_left (wpc (watcher_step inp b s)) (cancelled (watcher_step inp b s)) =
       watcher_left (wpc s) (cancelled s) - 1"
proof -
  have inv: "single_inv inp s"
    using assms by (simp add: signalled_def single_inv_def)
  have calm': "calm (watcher_step inp b s)"
    using assms by (simp add: calm_watcher signalled_def)
  have tables: "watcher_table (watcher_step inp b s) \<and> main_table (watcher_step inp b s)"
    using single_inv_watcher [OF inv assms(2), of b] calm' assms(1)
    by (simp add: single_inv_def signalled_def)
  have rest: "count_list (trace (watcher_step inp b s)) EvSignal = 1 \<and>
      proc (watcher_step inp b s) = Alive \<and>
      watcher_left (wpc (watcher_step inp b s)) (cancelled (watcher_step inp b s)) =
        watcher_left (wpc s) (cancelled s) - 1"
    using assms
    by (cases "wpc s")
      (auto simp: signalled_def watcher_table_def main_table_def watcher_step_def emit_def
        done_cap_def split: if_splits)
  show ?thesis
    using tables calm' rest assms(1) by (simp add: signalled_def)
qed

lemma signalled_watchers:
  assumes "signalled inp s" and "proc s = Alive"
    and "watcher_left (wpc s) (cancelled s) \<le> n"
  shows "signalled inp (exec inp (replicate n (ActWatcher b)) s) \<and>
     proc (exec inp (replicate n (ActWatcher b)) s) = Alive \<and>
     wpc (exec inp (replicate n (ActWatcher b)) s) = W_Returned"
  using assms
proof (induction n arbitrary: s)
  case 0
  then show ?case
    by (cases "wpc s") (simp_all split: if_splits)
next
  case (Suc n)
  note step = signalled_watcher [OF Suc.prems(1,2), of b]
  have "watcher_left (wpc (watcher_step inp b s)) (cancelled (watcher_step inp b s)) \<le> n"
    using step Suc.prems(3) by simp
  with step Suc.IH [of "watcher_step inp b s"] show ?case
    by (simp add: step_watcher_alive Suc.prems(2))
qed

lemma signalled_main:
  assumes "signalled inp s" and "proc s = Alive" and "wpc s = W_Returned"
  shows "signalled inp (main_step inp s) \<and> wpc (main_step inp s) = W_Returned \<and>
     (if main_left (mpc s) = 1 then proc (main_step inp s) = Exited 0
      else proc (main_step inp s) = Alive \<and>
           main_left (mpc (main_step inp s)) = main_left (mpc s) - 1)"
proof -
  have inv: "single_inv inp s"
    using assms by (simp add: signalled_def single_inv_def)
  have calm': "calm (main_step inp s)"
    using assms by (simp add: calm_main signalled_def)
  have tables: "watcher_table (main_step inp s) \<and> main_table (main_step inp s)"
    using single_inv_main [OF inv assms(2)] calm' assms(1)
    by (simp add: single_inv_def signalled_def)
  have rest: "count_list (trace (main_step inp s)) EvSignal = 1 \<and>
      wpc (main_step inp s) = W_Returned \<and>
      (if main_left (mpc s) = 1 then proc (main_step inp s) = Exited 0
       else proc (main_step inp s) = Alive \<and>
            main_left (mpc (main_step inp s)) = main_left (mpc s) - 1)"
    using assms
    by (cases "mpc s")
      (auto simp: signalled_def main_table_def setup_ok_def main_step_def emit_def os_Exit_def
        split: sum.splits)
  show ?thesis
    using tables calm' rest assms(1) by (auto simp: signalled_def split: if_splits)
qed

lemma signalled_mains:
  assumes "signalled inp s" and "wpc s = W_Returned"
    and "proc s = Alive \<longrightarrow> main_left (mpc s) \<le> n"
  shows "signalled inp (exec inp (replicate n ActMain) s) \<and>
     proc (exec inp (replicate n ActMain) s) = Exited 0"
  using assms
proof (induction n arbitrary: s)
  case 0
  then show ?case
    by (cases "mpc s") (auto simp: signalled_def)
next
  case (Suc n)
  show ?case
  proof (cases "proc s = Alive")
    case True
    note step = signalled_main [OF Suc.prems(1) True Suc.prems(2)]
    have "proc (main_step inp s) = Alive \<longrightarrow> main_left (mpc (main_step inp s)) \<le> n"
      using step Suc.prems(3) True by (auto split: if_splits)
    with step Suc.IH [of "main_step inp s"] show ?thesis
      by (simp add: step_main_alive True)
  next
    case False
    then have "step inp ActMain s = s"
      by (simp add: step_not_alive)
    with Suc.IH [of s] Suc.prems False show ?thesis
      by simp
  qed
qed

lemma signalled_life:
  assumes "signalled inp s" and "proc s = Exited 0"
  shows "life (trace s) = full_life"
  using single_life_exited [of s 0] assms by (simp add: signalled_def)

lemma signalled_finishes:
  assumes "signalled inp s" and "proc s = Alive"
  shows "proc (exec inp (replicate 7 (ActWatcher b) @ replicate 5 ActMain) s) = Exited 0 \<and>
     life (trace (exec inp (replicate 7 (ActWatcher b) @ replicate 5 ActMain) s)) = full_life"
proof -
  let ?s1 = "exec inp (replicate 7 (ActWatcher b)) s"
  have started: "wpc s \<noteq> W_None \<and> wpc s \<noteq> W_Notify"
    using assms by (auto simp: signalled_def watcher_table_def)
  then have "watcher_left (wpc s) (cancelled s) \<le> 7"
    by (cases "wpc s") simp_all
  from signalled_watchers [OF assms this, of b]
  have s1: "signalled inp ?s1" "proc ?s1 = Alive" "wpc ?s1 = W_Returned"
    by simp_all
  have "\<not> before_go (mpc ?s1)"
    using s1 by (auto simp: signalled_def main_table_def)
  then have "main_left (mpc ?s1) \<le> 5"
    using s1(1) by (cases "mpc ?s1") (simp_all add: signalled_def main_table_def)
  then have "proc ?s1 = Alive \<longrightarrow> main_left (mpc ?s1) \<le> 5"
    by simp
  from signalled_mains [OF s1(1) s1(3) this]
  have s2: "signalled inp (exec inp (replicate 5 ActMain) ?s1)"
    "proc (exec inp (replicate 5 ActMain) ?s1) = Exited 0"
    by simp_all
  show ?thesis
    using s2(2) signalled_life [OF s2] by (simp add: exec_append)
qed

lemma exec_not_alive: "proc s \<noteq> Alive \<Longrightarrow> exec inp sched s = s"
  by (induction sched) (simp_all add: step_not_alive)

lemma registered_step:
  assumes "done_inv s" and "registered s"
  shows "registered (step inp a s)"
proof (cases a)
  case ActMain
  then show ?thesis
    using assms
    by (cases "mpc s") (auto simp: step_def registered_def done_inv_def main_step_def emit_def os_Exit_def split: sum.splits)
next
  case (ActWatcher b)
  then show ?thesis
    using assms
    by (cases "wpc s") (auto simp: step_def registered_def watcher_step_def emit_def)
next
  case ActSignal
  then show ?thesis
    using assms by (auto simp: step_def registered_def signal_step_def emit_def)
next
  case ActServiceCancel
  then show ?thesis
    using assms by (auto simp: step_def registered_def service_cancel_step_def emit_def)
qed

lemma registered_exec:
  "done_inv s \<Longrightarrow> registered s \<Longrightarrow> registered (exec inp sched s)"
  by (induction sched arbitrary: s) (simp_all add: registered_step done_inv_step)

lemma killed_step:
  assumes "proc s = Killed \<longrightarrow> \<not> registered s"
  shows "proc (step inp a s) = Killed \<longrightarrow> \<not> registered (step inp a s)"
proof (cases "proc s = Alive")
  case False
  then show ?thesis
    using assms by (simp add: step_not_alive)
next
  case True
  show ?thesis
  proof (cases a)
    case ActMain
    then show ?thesis
      using True
      by (cases "mpc s") (auto simp: step_def main_step_def emit_def os_Exit_def split: sum.splits)
  next
    case (ActWatcher b)
    then show ?thesis
      using True by (cases "wpc s") (auto simp: step_def watcher_step_def emit_def)
  next
    case ActSignal
    then show ?thesis
      using True by (auto simp: step_def registered_def signal_step_def emit_def)
  next
    case ActServiceCancel
    then show ?thesis
      using True by (auto simp: step_def service_cancel_step_def emit_def)
  qed
qed

lemma killed_exec:
  "proc s = Killed \<longrightarrow> \<not> registered s \<Longrightarrow>
   proc (exec inp sched s) = Killed \<longrightarrow> \<not> registered (exec inp sched s)"
proof (induction sched arbitrary: s)
  case Nil
  then show ?case by simp
next
  case (Cons a sched)
  from Cons.IH [OF killed_step [OF Cons.prems]] show ?case
    by simp
qed

lemma trace_step_grows: "\<exists>evs. trace (step inp a s) = trace s @ evs"
proof (cases a)
  case ActMain
  then show ?thesis
    using trace_main_step [of inp s] by (auto simp: step_def)
next
  case (ActWatcher b)
  then show ?thesis
    using trace_watcher_step [of inp b s] by (auto simp: step_def)
next
  case ActSignal
  then show ?thesis
    by (auto simp: step_def signal_step_def emit_def)
next
  case ActServiceCancel
  then show ?thesis
    by (auto simp: step_def service_cancel_step_def emit_def)
qed

lemma trace_exec_grows: "\<exists>evs. trace (exec inp sched s) = trace s @ evs"
proof (induction sched arbitrary: s)
  case Nil
  show ?case by simp
next
  case (Cons a sched)
  obtain e1 where "trace (step inp a s) = trace s @ e1"
    using trace_step_grows by blast
  moreover obtain e2 where "trace (exec inp sched (step inp a s)) = trace (step inp a s) @ e2"
    using Cons.IH by blast
  ultimately show ?case
    by simp
qed

text \<open>
  C2, as stated: a termination signal received while the service is running would lead
  to exactly one call of \<^verbatim>\<open>Stop\<close>, with a live context, and exactly one cancellation,
  then one write to \<^verbatim>\<open>done\<close> and exit with code 0. Two runs show otherwise; in both,
  \<^verbatim>\<open>Start\<close> has returned and the main routine waits on line 102 when the signal arrives.
  In the first, the watcher loops back to its \<^verbatim>\<open>select\<close> after \<^verbatim>\<open>cancelFunc\<close>; a second
  signal has arrived in the meantime, both cases of the \<^verbatim>\<open>select\<close> are ready, and the
  watcher takes the signal again: \<^verbatim>\<open>Stop\<close> is called twice, the second time with the
  context already cancelled, and \<^verbatim>\<open>cancelFunc\<close> is called twice. In the second, the
  watcher has not yet executed \<^verbatim>\<open>signal.Notify\<close>, which is inside the goroutine (lines
  78-80): the one signal ends the process, and none of the four events happens.
\<close>

theorem signal_shutdown_counterexample:
  "mpc (run (example_input False False) running_sched) = M_Wait \<and>
   proc (run (example_input False False) running_sched) = Alive \<and>
   life (trace (run (example_input False False) two_signal_sched)) =
     [EvStop True, EvCancel WatcherRoutine, EvStop False, EvCancel WatcherRoutine,
      EvDoneWrite, EvExit 0] \<and>
   mpc (run (example_input False False) (replicate 6 ActMain)) = M_Wait \<and>
   proc (run (example_input False False) (replicate 6 ActMain)) = Alive \<and>
   proc (run (example_input False False) early_signal_sched) = Killed \<and>
   life (trace (run (example_input False False) early_signal_sched)) = []"
  by code_simp

text \<open>
  C2, amended. Take a run in which the resolution, the constructor and \<^verbatim>\<open>Start\<close> succeed,
  a termination signal reaches the live process after the watcher has executed
  \<^verbatim>\<open>signal.Notify\<close> (wherever the main routine stands then, in particular while the
  service is running), no second signal follows, and the service does not invoke
  \<^verbatim>\<open>cancelFunc\<close>. Whatever the routines do after the signal, the lifecycle events of the
  run are an initial part of: one call of \<^verbatim>\<open>Stop\<close> with the root context live, one
  cancellation by the watcher, one write to \<^verbatim>\<open>done\<close>, exit with code 0. The process is
  not ended by the signal; if it has exited, all four events have happened, in this order.
  And seven more steps of the watcher followed by five of the main routine complete the
  four events: the main routine is unblocked and the process exits with code 0.
\<close>

theorem single_signal_shutdown:
  assumes "setup_ok inp"
    and "sched = pre @ ActSignal # post"
    and "proc (run inp pre) = Alive"
    and "registered (run inp pre)"
    and "count_list (trace (run inp sched)) EvSignal \<le> 1"
    and "EvCancel ServiceRoutine \<notin> set (trace (run inp sched))"
  shows "prefix (life (trace (run inp sched))) full_life \<and>
     (\<forall>c. proc (run inp sched) = Exited c \<longrightarrow>
        c = 0 \<and> life (trace (run inp sched)) = full_life) \<and>
     proc (run inp sched) \<noteq> Killed \<and>
     proc (exec inp (replicate 7 (ActWatcher b) @ replicate 5 ActMain) (run inp sched)) =
       Exited 0 \<and>
     life (trace (exec inp (replicate 7 (ActWatcher b) @ replicate 5 ActMain)
             (run inp sched))) = full_life"
proof -
  let ?pre = "run inp pre"
  let ?s = "run inp sched"
  let ?fin = "replicate 7 (ActWatcher b) @ replicate 5 ActMain"
  have split: "?s = exec inp post (step inp ActSignal ?pre)"
    by (simp add: assms(2) run_def exec_append)
  have calm: "calm ?s"
    using assms(5,6) by (simp add: calm_def)
  have tables: "watcher_table ?s" "main_table ?s"
    using single_inv_run [of inp sched] assms(1) calm by (simp_all add: single_inv_def)
  have ordered: "prefix (life (trace ?s)) full_life"
    using tables(1) by (rule single_life_prefix)
  have exited: "c = 0 \<and> life (trace ?s) = full_life" if "proc ?s = Exited c" for c
    using tables that by (rule single_life_exited)
  have "EvSignal \<in> set (trace (step inp ActSignal ?pre))"
    using assms(3) by (simp add: step_def signal_step_def emit_def)
  then have arrived: "EvSignal \<in> set (trace ?s)"
    using trace_exec_grows [of inp post "step inp ActSignal ?pre"] split by auto
  then have "count_list (trace ?s) EvSignal \<noteq> 0"
    by (simp add: count_list_0_iff)
  with assms(5) have one: "count_list (trace ?s) EvSignal = 1"
    by simp
  have "registered (exec inp (ActSignal # post) ?pre)"
    using registered_exec [OF done_inv_run assms(4)] .
  then have reg: "registered ?s"
    using split by simp
  have "proc init = Killed \<longrightarrow> \<not> registered init"
    by (simp add: init_def)
  then have "proc ?s = Killed \<longrightarrow> \<not> registered ?s"
    unfolding run_def by (rule killed_exec)
  with reg have survives: "proc ?s \<noteq> Killed"
    by blast
  have state: "proc ?s = Alive \<or> proc ?s = Exited 0"
    using survives exited by (cases "proc ?s") auto
  then have sig: "signalled inp ?s"
    using assms(1) tables calm one by (simp add: signalled_def)
  have finishes: "proc (exec inp ?fin ?s) = Exited 0 \<and> life (trace (exec inp ?fin ?s)) = full_life"
  proof (cases "proc ?s = Alive")
    case True
    with sig show ?thesis
      by (rule signalled_finishes)
  next
    case False
    with state have gone: "proc ?s = Exited 0"
      by simp
    have "exec inp ?fin ?s = ?s"
      using False by (rule exec_not_alive)
    then show ?thesis
      using gone signalled_life [OF sig gone] by simp
  qed
  show ?thesis
    using ordered exited survives finishes by blast
qed

theorem single_signal_shutdown_witness:
  "setup_ok (example_input False False) \<and>
   mpc (run (example_input False False) running_sched) = M_Wait \<and>
   proc (run (example_input False False) running_sched) = Alive \<and>
   registered (run (example_input False False) running_sched) \<and>
   proc (run (example_input False False) (running_sched @ [ActSignal])) \<noteq> Killed \<and>
   proc (exec (example_input False False) (replicate 7 (ActWatcher True) @ replicate 5 ActMain)
          (run (example_input False False) (running_sched @ [ActSignal]))) = Exited 0 \<and>
   life (trace (exec (example_input False False)
          (replicate 7 (ActWatcher True) @ replicate 5 ActMain)
          (run (example_input False False) (running_sched @ [ActSignal])))) = full_life"
proof -
  let ?inp = "example_input False False"
  let ?sched = "running_sched @ [ActSignal]"
  have waiting: "mpc (run ?inp running_sched) = M_Wait"
    by code_simp
  have alive: "proc (run ?inp running_sched) = Alive"
    by code_simp
  have reg: "registered (run ?inp running_sched)"
    by code_simp
  have one: "count_list (trace (run ?inp ?sched)) EvSignal \<le> 1"
    by code_simp
  have quiet: "EvCancel ServiceRoutine \<notin> set (trace (run ?inp ?sched))"
    by code_simp
  show ?thesis
    using setup_ok_example waiting alive reg
      single_signal_shutdown [OF setup_ok_example refl alive reg one quiet, of True]
    by blast
qed

end
